theory Spec2Isabelle
  imports Main
begin

section \<open>The dictionary of \<open>uhd/types/dict.hpp\<close>\<close>

subsection \<open>Data model\<close>

text \<open>
  The class \<open>dict<Key, Val>\<close> has one data member, the private container
  \<open>std::list<pair_t> _map\<close> with \<open>pair_t = std::pair<Key, Val>\<close>. The list is a HOL list of
  pairs, front first.
\<close>

record ('k, 'v) dict =
  dmap :: "('k \<times> 'v) list"

text \<open>
  What the template takes from its arguments \<open>Key\<close> and \<open>Val\<close>: the text of a key
  (\<open>boost::lexical_cast<std::string>(key)\<close>), the implementation-defined names
  \<open>typeid(Key).name()\<close> and \<open>typeid(Val).name()\<close>, and the value-initialised \<open>Val()\<close>.
  Equality of keys (\<open>operator==\<close>, \<open>operator!=\<close>) is HOL equality.
\<close>

record ('k, 'v) template_env =
  lexical_cast :: "'k \<Rightarrow> string"
  typeid_Key :: string
  typeid_Val :: string
  Val :: 'v

text \<open>
  Exception objects, by their dynamic type. A \<open>std::out_of_range\<close> holds the text its
  \<open>what()\<close> returns; a plain \<open>std::exception\<close> has no text of its own.
\<close>

datatype exception = Std_exception | Out_of_range string

text \<open>
  A function whose return type is \<open>std::exception\<close> (by value) and whose operand is an object
  of a derived class returns a copy of the base-class subobject: the result has dynamic type
  \<open>std::exception\<close>, whatever the operand held.
\<close>

fun to_std_exception :: "exception \<Rightarrow> exception" where
  "to_std_exception Std_exception = Std_exception"
| "to_std_exception (Out_of_range msg) = Std_exception"

text \<open>The text an exception object carries, if any.\<close>

fun what_text :: "exception \<Rightarrow> string option" where
  "what_text Std_exception = None"
| "what_text (Out_of_range msg) = Some msg"

subsection \<open>Operations\<close>

text \<open>
  \<open>key_not_found_in_dict\<close> (lines 158-163): the \<open>boost::format\<close> with its three \<open>%s\<close>
  filled in builds the argument of \<open>std::out_of_range\<close>; the function's return type is
  \<open>std::exception\<close>.
\<close>

definition key_not_found_message :: "('k, 'v) template_env \<Rightarrow> 'k \<Rightarrow> string" where
  "key_not_found_message T key =
     ''key '' @ [CHR 0x22] @ lexical_cast T key @ [CHR 0x22] @ '' not found in dict(''
       @ typeid_Key T @ '', '' @ typeid_Val T @ '')''"

definition key_not_found_in_dict :: "('k, 'v) template_env \<Rightarrow> 'k \<Rightarrow> exception" where
  "key_not_found_in_dict T key = to_std_exception (Out_of_range (key_not_found_message T key))"

text \<open>The two constructors (lines 42-44 and 52-57); the second pushes every element back.\<close>

definition dict_empty :: "('k, 'v) dict" where
  "dict_empty = \<lparr>dmap = []\<rparr>"

fun dict_range_loop :: "('k \<times> 'v) list \<Rightarrow> ('k \<times> 'v) list \<Rightarrow> ('k \<times> 'v) list" where
  "dict_range_loop [] m = m"
| "dict_range_loop (x # xs) m = dict_range_loop xs (m @ [x])"

definition dict_range :: "('k \<times> 'v) list \<Rightarrow> ('k, 'v) dict" where
  "dict_range xs = \<lparr>dmap = dict_range_loop xs []\<rparr>"

text \<open>\<open>size\<close> (lines 70-72).\<close>

definition dict_size :: "('k, 'v) dict \<Rightarrow> nat" where
  "dict_size d = length (dmap d)"

text \<open>\<open>keys\<close> (lines 79-85) and \<open>vals\<close> (lines 92-98): a fresh vector, filled front to back.\<close>

fun keys_loop :: "('k \<times> 'v) list \<Rightarrow> 'k list \<Rightarrow> 'k list" where
  "keys_loop [] ks = ks"
| "keys_loop (p # ps) ks = keys_loop ps (ks @ [fst p])"

definition keys :: "('k, 'v) dict \<Rightarrow> 'k list" where
  "keys d = keys_loop (dmap d) []"

fun vals_loop :: "('k \<times> 'v) list \<Rightarrow> 'v list \<Rightarrow> 'v list" where
  "vals_loop [] vs = vs"
| "vals_loop (p # ps) vs = vals_loop ps (vs @ [snd p])"

definition vals :: "('k, 'v) dict \<Rightarrow> 'v list" where
  "vals d = vals_loop (dmap d) []"

text \<open>\<open>has_key\<close> (lines 105-110).\<close>

fun has_key_loop :: "'k \<Rightarrow> ('k \<times> 'v) list \<Rightarrow> bool" where
  "has_key_loop key [] = False"
| "has_key_loop key (p # ps) = (if fst p = key then True else has_key_loop key ps)"

definition has_key :: "('k, 'v) dict \<Rightarrow> 'k \<Rightarrow> bool" where
  "has_key d key = has_key_loop key (dmap d)"

text \<open>
  The \<open>const\<close> \<open>operator[]\<close> (lines 119-124): the value of the first pair with the key, or the
  exception thrown after the loop.
\<close>

fun index_const_loop :: "('k, 'v) template_env \<Rightarrow> 'k \<Rightarrow> ('k \<times> 'v) list \<Rightarrow> exception + 'v" where
  "index_const_loop T key [] = Inl (key_not_found_in_dict T key)"
| "index_const_loop T key (p # ps) =
     (if fst p = key then Inr (snd p) else index_const_loop T key ps)"

definition index_const :: "('k, 'v) template_env \<Rightarrow> ('k, 'v) dict \<Rightarrow> 'k \<Rightarrow> exception + 'v" where
  "index_const T d key = index_const_loop T key (dmap d)"

text \<open>
  The non-\<open>const\<close> \<open>operator[]\<close> (lines 132-138) returns a \<open>Val &\<close> into a node of \<open>_map\<close>. A
  reference is modelled by the position of its node in the list; the operation returns the
  dictionary after the call together with the reference. When the loop finds no pair, the pair
  \<open>(key, Val())\<close> is pushed back and the reference is to \<open>_map.back().second\<close>.
\<close>

fun index_mut_loop :: "'k \<Rightarrow> ('k \<times> 'v) list \<Rightarrow> nat \<Rightarrow> nat option" where
  "index_mut_loop key [] i = None"
| "index_mut_loop key (p # ps) i =
     (if fst p = key then Some i else index_mut_loop key ps (Suc i))"

definition index_mut :: "('k, 'v) template_env \<Rightarrow> ('k, 'v) dict \<Rightarrow> 'k \<Rightarrow> ('k, 'v) dict \<times> nat" where
  "index_mut T d key =
     (case index_mut_loop key (dmap d) 0 of
        Some r \<Rightarrow> (d, r)
      | None \<Rightarrow>
          (let d' = d\<lparr>dmap := dmap d @ [(key, Val T)]\<rparr>
           in (d', length (dmap d') - 1)))"

text \<open>Reading and assigning through a reference to the \<open>second\<close> of a node.\<close>

definition ref_read :: "('k, 'v) dict \<Rightarrow> nat \<Rightarrow> 'v" where
  "ref_read d r = snd (dmap d ! r)"

definition ref_assign :: "('k, 'v) dict \<Rightarrow> nat \<Rightarrow> 'v \<Rightarrow> ('k, 'v) dict" where
  "ref_assign d r v = d\<lparr>dmap := (dmap d)[r := (fst (dmap d ! r), v)]\<rparr>"

text \<open>The indexed write, the statement \<open>d[key] = v\<close>.\<close>

definition set_item :: "('k, 'v) template_env \<Rightarrow> ('k, 'v) dict \<Rightarrow> 'k \<Rightarrow> 'v \<Rightarrow> ('k, 'v) dict" where
  "set_item T d key v = (case index_mut T d key of (d', r) \<Rightarrow> ref_assign d' r v)"

text \<open>
  \<open>pop\<close> (lines 146-155): the iterator walks from \<open>begin()\<close>; \<open>before\<close> holds the nodes it has
  passed. At the first node whose key is not different from \<open>key\<close> the value is copied, the
  node erased and the value returned; past the end the exception is thrown and \<open>_map\<close> is as it
  was. The result is the outcome together with the dictionary after the call.
\<close>

fun pop_loop :: "'k \<Rightarrow> ('k \<times> 'v) list \<Rightarrow> ('k \<times> 'v) list \<Rightarrow> ('v \<times> ('k \<times> 'v) list) option" where
  "pop_loop key before [] = None"
| "pop_loop key before (p # ps) =
     (if fst p \<noteq> key then pop_loop key (before @ [p]) ps
      else Some (snd p, before @ ps))"

definition pop :: "('k, 'v) template_env \<Rightarrow> ('k, 'v) dict \<Rightarrow> 'k \<Rightarrow> (exception + 'v) \<times> ('k, 'v) dict" where
  "pop T d key =
     (case pop_loop key [] (dmap d) of
        Some (val, m) \<Rightarrow> (Inr val, d\<lparr>dmap := m\<rparr>)
      | None \<Rightarrow> (Inl (key_not_found_in_dict T key), d))"

text \<open>
  A caller's sequence of mutating calls: an indexed write, or a \<open>pop\<close> whose exception, if
  any, the caller catches.
\<close>

datatype ('k, 'v) mutation = Write 'k 'v | Remove 'k

fun mutate :: "('k, 'v) template_env \<Rightarrow> ('k, 'v) dict \<Rightarrow> ('k, 'v) mutation \<Rightarrow> ('k, 'v) dict" where
  "mutate T d (Write key v) = set_item T d key v"
| "mutate T d (Remove key) = snd (pop T d key)"

fun mutate_all :: "('k, 'v) template_env \<Rightarrow> ('k, 'v) dict \<Rightarrow> ('k, 'v) mutation list \<Rightarrow> ('k, 'v) dict" where
  "mutate_all T d [] = d"
| "mutate_all T d (m # ms) = mutate_all T (mutate T d m) ms"

text \<open>
  Position \<open>i\<close> holds the first pair of \<open>ps\<close>, front first, whose key equals \<open>key\<close>.
\<close>

definition first_match :: "('k \<times> 'v) list \<Rightarrow> 'k \<Rightarrow> nat \<Rightarrow> bool" where
  "first_match ps key i \<longleftrightarrow>
     i < length ps \<and> fst (ps ! i) = key \<and> key \<notin> set (map fst (take i ps))"

text \<open>The number of stored pairs whose key equals \<open>key\<close>.\<close>

definition key_count :: "('k, 'v) dict \<Rightarrow> 'k \<Rightarrow> nat" where
  "key_count d key = length (filter (\<lambda>p. fst p = key) (dmap d))"

text \<open>
  The instance \<open>dict<std::string, int>\<close>: the text of a string is the string, \<open>int()\<close> is 0,
  and the type names are those of one implementation.
\<close>

definition string_int_env :: "(string, int) template_env" where
  "string_int_env = \<lparr>lexical_cast = (\<lambda>s. s), typeid_Key = ''Ss'', typeid_Val = ''i'', Val = 0\<rparr>"

section \<open>Properties\<close>

subsection \<open>The loops in closed form\<close>

lemma dict_range_loop_append: "dict_range_loop xs m = m @ xs"
  by (induction xs arbitrary: m) simp_all

lemma dmap_dict_range: "dmap (dict_range xs) = xs"
  by (simp add: dict_range_def dict_range_loop_append)

lemma keys_loop_append: "keys_loop ps ks = ks @ map fst ps"
  by (induction ps arbitrary: ks) simp_all

lemma keys_map_fst: "keys d = map fst (dmap d)"
  by (simp add: keys_def keys_loop_append)

lemma vals_loop_append: "vals_loop ps vs = vs @ map snd ps"
  by (induction ps arbitrary: vs) simp_all

lemma vals_map_snd: "vals d = map snd (dmap d)"
  by (simp add: vals_def vals_loop_append)

lemma has_key_loop_iff: "has_key_loop key ps \<longleftrightarrow> key \<in> set (map fst ps)"
  by (induction ps) auto

lemma has_key_iff: "has_key d key \<longleftrightarrow> key \<in> set (keys d)"
  by (simp add: has_key_def has_key_loop_iff keys_map_fst)

lemma first_match_Cons:
  "first_match (p # ps) key i \<longleftrightarrow>
     (if fst p = key then i = 0 else (\<exists>j. i = Suc j \<and> first_match ps key j))"
  by (cases i) (auto simp: first_match_def)

lemma first_match_Nil: "\<not> first_match [] key i"
  by (simp add: first_match_def)

lemma first_match_unique: "first_match ps key i \<Longrightarrow> first_match ps key j \<Longrightarrow> i = j"
  by (induction ps arbitrary: i j) (auto simp: first_match_Cons first_match_Nil split: if_splits)

lemma first_match_exists: "key \<in> set (map fst ps) \<Longrightarrow> \<exists>i. first_match ps key i"
proof (induction ps)
  case Nil
  then show ?case by simp
next
  case (Cons p ps)
  show ?case
  proof (cases "fst p = key")
    case True
    then have "first_match (p # ps) key 0" by (simp add: first_match_Cons)
    then show ?thesis ..
  next
    case False
    with Cons obtain j where "first_match ps key j" by auto
    with False have "first_match (p # ps) key (Suc j)" by (simp add: first_match_Cons)
    then show ?thesis ..
  qed
qed

lemma first_match_present: "first_match ps key i \<Longrightarrow> key \<in> set (map fst ps)"
  by (auto simp: first_match_def dest: nth_mem)

lemma index_const_loop_absent:
  "key \<notin> set (map fst ps) \<Longrightarrow> index_const_loop T key ps = Inl (key_not_found_in_dict T key)"
  by (induction ps) auto

lemma index_const_loop_first:
  "first_match ps key i \<Longrightarrow> index_const_loop T key ps = Inr (snd (ps ! i))"
  by (induction ps arbitrary: i) (auto simp: first_match_Cons first_match_Nil split: if_splits)

lemma index_mut_loop_absent:
  "key \<notin> set (map fst ps) \<Longrightarrow> index_mut_loop key ps i = None"
  by (induction ps arbitrary: i) auto

lemma index_mut_loop_first:
  "first_match ps key j \<Longrightarrow> index_mut_loop key ps i = Some (i + j)"
  by (induction ps arbitrary: i j) (auto simp: first_match_Cons first_match_Nil split: if_splits)

lemma pop_loop_absent:
  "key \<notin> set (map fst ps) \<Longrightarrow> pop_loop key before ps = None"
  by (induction ps arbitrary: before) auto

lemma pop_loop_first:
  "first_match ps key i \<Longrightarrow>
     pop_loop key before ps = Some (snd (ps ! i), before @ take i ps @ drop (Suc i) ps)"
  by (induction ps arbitrary: i before) (auto simp: first_match_Cons first_match_Nil split: if_splits)

subsection \<open>The operations in closed form\<close>

lemma first_match_key: "first_match ps key i \<Longrightarrow> i < length ps \<and> fst (ps ! i) = key"
  by (simp add: first_match_def)

lemma index_mut_present: "first_match (dmap d) key i \<Longrightarrow> index_mut T d key = (d, i)"
  using index_mut_loop_first [of "dmap d" key i 0] by (simp add: index_mut_def)

lemma index_mut_absent:
  "key \<notin> set (keys d) \<Longrightarrow>
     index_mut T d key = (d\<lparr>dmap := dmap d @ [(key, Val T)]\<rparr>, length (dmap d))"
  by (simp add: index_mut_def index_mut_loop_absent keys_map_fst)

lemma dmap_set_item_present:
  "first_match (dmap d) key i \<Longrightarrow> dmap (set_item T d key v) = (dmap d)[i := (key, v)]"
  by (simp add: set_item_def index_mut_present ref_assign_def first_match_key)

lemma dmap_set_item_absent:
  "key \<notin> set (keys d) \<Longrightarrow> dmap (set_item T d key v) = dmap d @ [(key, v)]"
  by (simp add: set_item_def index_mut_absent ref_assign_def)

lemma keys_set_item:
  "keys (set_item T d key v) = (if key \<in> set (keys d) then keys d else keys d @ [key])"
proof (cases "key \<in> set (keys d)")
  case True
  then obtain i where i: "first_match (dmap d) key i"
    using first_match_exists [of key "dmap d"] by (auto simp: keys_map_fst)
  then have "(map fst (dmap d))[i := key] = map fst (dmap d)"
    by (simp add: first_match_def list_update_same_conv)
  with i True show ?thesis
    by (simp add: keys_map_fst dmap_set_item_present map_update)
next
  case False
  then show ?thesis by (simp add: keys_map_fst [of "set_item T d key v"] dmap_set_item_absent) (simp add: keys_map_fst)
qed

lemma pop_present:
  "first_match (dmap d) key i \<Longrightarrow>
     pop T d key = (Inr (snd (dmap d ! i)), d\<lparr>dmap := take i (dmap d) @ drop (Suc i) (dmap d)\<rparr>)"
  using pop_loop_first [of "dmap d" key i "[]"] by (simp add: pop_def)

lemma pop_absent:
  "key \<notin> set (keys d) \<Longrightarrow> pop T d key = (Inl (key_not_found_in_dict T key), d)"
  by (simp add: pop_def pop_loop_absent keys_map_fst)

lemma index_const_present:
  "first_match (dmap d) key i \<Longrightarrow> index_const T d key = Inr (snd (dmap d ! i))"
  by (simp add: index_const_def index_const_loop_first)

lemma index_const_absent:
  "key \<notin> set (keys d) \<Longrightarrow> index_const T d key = Inl (key_not_found_in_dict T key)"
  by (simp add: index_const_def index_const_loop_absent keys_map_fst)

lemma first_match_set_item: "\<exists>i. first_match (dmap (set_item T d key v)) key i \<and> snd (dmap (set_item T d key v) ! i) = v"
proof (cases "key \<in> set (keys d)")
  case True
  then obtain i where i: "first_match (dmap d) key i"
    using first_match_exists [of key "dmap d"] by (auto simp: keys_map_fst)
  then have "first_match ((dmap d)[i := (key, v)]) key i \<and> snd ((dmap d)[i := (key, v)] ! i) = v"
    by (simp add: first_match_def)
  with i show ?thesis by (auto simp: dmap_set_item_present)
next
  case False
  then have "first_match (dmap d @ [(key, v)]) key (length (dmap d))"
    by (simp add: first_match_def keys_map_fst)
  with False show ?thesis by (auto simp: dmap_set_item_absent)
qed

lemma index_const_set_item: "index_const T (set_item T d key v) key = Inr v"
  using first_match_set_item [of T d key v] by (auto simp: index_const_present)

lemma key_not_found_is_std_exception: "key_not_found_in_dict T key = Std_exception"
  by (simp add: key_not_found_in_dict_def)

lemma index_const_Inr_present: "key \<in> set (keys d) \<Longrightarrow> \<exists>v. index_const T d key = Inr v"
  using first_match_exists [of key "dmap d"] by (auto simp: keys_map_fst index_const_present)

lemma pop_Inr_present: "key \<in> set (keys d) \<Longrightarrow> \<exists>v. fst (pop T d key) = Inr v"
  using first_match_exists [of key "dmap d"] by (auto simp: keys_map_fst pop_present)

lemma has_key_first_match: "has_key d key \<Longrightarrow> \<exists>i. first_match (dmap d) key i"
  using first_match_exists [of key "dmap d"] by (simp add: has_key_iff keys_map_fst)

subsection \<open>Distinct keys\<close>

lemma filter_key_distinct:
  "distinct (map fst ps) \<Longrightarrow> length (filter (\<lambda>p. fst p = key) ps) \<le> 1"
proof (induction ps)
  case Nil
  then show ?case by simp
next
  case (Cons p ps)
  show ?case
  proof (cases "fst p = key")
    case True
    with Cons.prems have "key \<notin> fst ` set ps" by auto
    then have "filter (\<lambda>p. fst p = key) ps = []" by (auto simp: filter_empty_conv)
    with True show ?thesis by simp
  next
    case False
    with Cons show ?thesis by simp
  qed
qed

lemma filter_key_present:
  "key \<in> set (map fst ps) \<Longrightarrow> 1 \<le> length (filter (\<lambda>p. fst p = key) ps)"
  by (induction ps) auto

lemma key_count_distinct: "distinct (keys d) \<Longrightarrow> key_count d key \<le> 1"
  using filter_key_distinct [of "dmap d" key] by (simp add: key_count_def keys_map_fst)

lemma key_count_distinct_present:
  "distinct (keys d) \<Longrightarrow> key \<in> set (keys d) \<Longrightarrow> key_count d key = 1"
  using filter_key_distinct [of "dmap d" key] filter_key_present [of key "dmap d"]
  by (simp add: key_count_def keys_map_fst)

lemma distinct_keys_set_item: "distinct (keys d) \<Longrightarrow> distinct (keys (set_item T d key v))"
  by (simp add: keys_set_item)

lemma keys_pop_present:
  "first_match (dmap d) key i \<Longrightarrow>
     keys (snd (pop T d key)) = take i (keys d) @ drop (Suc i) (keys d)"
  by (simp add: pop_present keys_map_fst take_map drop_map)

lemma distinct_take_drop:
  "distinct xs \<Longrightarrow> distinct (take i xs @ drop (Suc i) xs)"
proof -
  assume d: "distinct xs"
  have "set (take i xs) \<inter> set (drop (Suc i) xs) \<subseteq> set (take i xs) \<inter> set (drop i xs)"
    using set_drop_subset_set_drop [of i "Suc i" xs] by auto
  moreover from d have "set (take i xs) \<inter> set (drop i xs) = {}"
    using distinct_append [of "take i xs" "drop i xs"] by simp
  ultimately have "set (take i xs) \<inter> set (drop (Suc i) xs) = {}" by blast
  with d show ?thesis by simp
qed

lemma distinct_keys_pop: "distinct (keys d) \<Longrightarrow> distinct (keys (snd (pop T d key)))"
proof (cases "key \<in> set (keys d)")
  case True
  assume d: "distinct (keys d)"
  from True have "\<exists>i. first_match (dmap d) key i"
    using first_match_exists [of key "dmap d"] by (simp add: keys_map_fst)
  then obtain i where "first_match (dmap d) key i" ..
  then have "keys (snd (pop T d key)) = take i (keys d) @ drop (Suc i) (keys d)"
    by (rule keys_pop_present)
  with d show ?thesis by (simp only: distinct_take_drop)
next
  case False
  assume "distinct (keys d)"
  with False show ?thesis by (simp add: pop_absent)
qed

lemma distinct_keys_mutate: "distinct (keys d) \<Longrightarrow> distinct (keys (mutate T d m))"
  by (cases m) (simp_all add: distinct_keys_set_item distinct_keys_pop)

lemma distinct_keys_mutate_all: "distinct (keys d) \<Longrightarrow> distinct (keys (mutate_all T d ms))"
  by (induction ms arbitrary: d) (simp_all add: distinct_keys_mutate)

lemma dict_size_set_item_present:
  "key \<in> set (keys d) \<Longrightarrow> dict_size (set_item T d key v) = dict_size d"
proof -
  have "length (keys (set_item T d key v)) = dict_size (set_item T d key v)"
    by (simp add: keys_map_fst dict_size_def)
  moreover assume "key \<in> set (keys d)"
  ultimately show ?thesis by (simp add: keys_set_item) (simp add: keys_map_fst dict_size_def)
qed

lemma key_in_keys_set_item: "key \<in> set (keys (set_item T d key v))"
  by (simp add: keys_set_item)

lemma key_count_keys: "key_count d key = length (filter (\<lambda>x. x = key) (keys d))"
  by (simp add: key_count_def keys_map_fst filter_map comp_def)

lemma key_count_set_item_present:
  "key \<in> set (keys d) \<Longrightarrow> key_count (set_item T d key v) k = key_count d k"
  by (simp add: key_count_keys keys_set_item)

lemma key_absent_after_pop:
  assumes i: "first_match (dmap d) key i" and one: "key_count d key = 1"
  shows "key \<notin> set (keys (snd (pop T d key)))"
proof -
  let ?ps = "dmap d"
  from i have len: "i < length ?ps" and k: "fst (?ps ! i) = key"
    and before: "key \<notin> set (map fst (take i ?ps))"
    by (simp_all add: first_match_def)
  from len have split: "?ps = take i ?ps @ ?ps ! i # drop (Suc i) ?ps"
    by (rule id_take_nth_drop)
  from before have "filter (\<lambda>p. fst p = key) (take i ?ps) = []"
    by (auto simp: filter_empty_conv)
  with k have "length (filter (\<lambda>p. fst p = key) (take i ?ps @ ?ps ! i # drop (Suc i) ?ps))
                 = Suc (length (filter (\<lambda>p. fst p = key) (drop (Suc i) ?ps)))"
    by simp
  with split one have "filter (\<lambda>p. fst p = key) (drop (Suc i) ?ps) = []"
    by (simp add: key_count_def)
  then have "key \<notin> set (map fst (drop (Suc i) ?ps))"
    by (auto simp: filter_empty_conv)
  with before i show ?thesis
    by (simp add: pop_present keys_map_fst)
qed

lemma remdups_skip_later_duplicate:
  "x \<in> set ys \<Longrightarrow> remdups (xs @ x # ys) = remdups (xs @ ys)"
  by (induction xs) auto

lemma keys_write_sequence:
  "distinct (keys d) \<Longrightarrow>
     keys (mutate_all T d (map (\<lambda>(key, v). Write key v) ws))
       = rev (remdups (rev (keys d @ map fst ws)))"
proof (induction ws arbitrary: d)
  case Nil
  then show ?case by (simp add: distinct_remdups_id)
next
  case (Cons w ws)
  obtain key v where w: "w = (key, v)" by (cases w)
  let ?d = "set_item T d key v"
  from Cons.prems have "distinct (keys ?d)" by (rule distinct_keys_set_item)
  then have step: "keys (mutate_all T ?d (map (\<lambda>(key, v). Write key v) ws))
               = rev (remdups (rev (keys ?d @ map fst ws)))"
    by (rule Cons.IH)
  have "remdups (rev (keys ?d @ map fst ws)) = remdups (rev (keys d @ key # map fst ws))"
  proof (cases "key \<in> set (keys d)")
    case True
    then have "key \<in> set (rev (keys d))" by simp
    then have "remdups (rev (map fst ws) @ key # rev (keys d))
                 = remdups (rev (map fst ws) @ rev (keys d))"
      by (rule remdups_skip_later_duplicate)
    with True show ?thesis by (simp add: keys_set_item)
  next
    case False
    then show ?thesis by (simp add: keys_set_item)
  qed
  with step w show ?case by simp
qed

lemma scenario_a_b_a:
  "mutate_all string_int_env dict_empty [Write ''a'' 1, Write ''b'' 2, Write ''a'' 3]
     = \<lparr>dmap = [(''a'', 3), (''b'', 2)]\<rparr>"
  by (simp add: set_item_def index_mut_def ref_assign_def dict_empty_def string_int_env_def)

lemma dup_dict_two_writes:
  "mutate_all string_int_env (dict_range [(''a'', 1), (''a'', 2)]) [Write ''a'' 5, Write ''a'' 6]
     = \<lparr>dmap = [(''a'', 6), (''a'', 2)]\<rparr>"
  by (simp add: set_item_def index_mut_def ref_assign_def dmap_dict_range dict_range_def)

subsection \<open>Construction and snapshots\<close>

text \<open>
  C7. The range constructor stores exactly the pairs it is given, in the given order and
  without removing duplicate keys: the stored sequence is the input sequence, \<open>size()\<close> is
  the number of input pairs, and an input with the same key twice gives a dictionary that
  holds both pairs.
\<close>

theorem range_constructor_verbatim:
  "dmap (dict_range xs) = xs
   \<and> dict_size (dict_range xs) = length xs
   \<and> dmap (dict_range [(k, v1), (k, v2)]) = [(k, v1), (k, v2)]
   \<and> dict_size (dict_range [(k, v1), (k, v2)]) = 2"
  by (simp add: dict_size_def dmap_dict_range)

text \<open>
  C10. For every dictionary, \<open>keys()\<close> and \<open>vals()\<close> have the length \<open>size()\<close>, and at every
  position below that length the key and the value of the two snapshots are the key and the
  value of the pair stored at that position.
\<close>

theorem snapshot_alignment:
  "length (keys d) = dict_size d
   \<and> length (vals d) = dict_size d
   \<and> (\<forall>i < dict_size d. (keys d ! i, vals d ! i) = dmap d ! i)"
  by (simp add: keys_map_fst vals_map_snd dict_size_def)

theorem snapshot_alignment_witness:
  "(1::nat) < dict_size (dict_range [(''x'', 10::int), (''y'', 20)])
   \<and> length (keys (dict_range [(''x'', 10::int), (''y'', 20)])) = 2
   \<and> (keys (dict_range [(''x'', 10::int), (''y'', 20)]) ! 1,
       vals (dict_range [(''x'', 10::int), (''y'', 20)]) ! 1) = (''y'', 20)"
  using snapshot_alignment [of "dict_range [(''x'', 10::int), (''y'', 20)]"]
  by (simp add: dict_size_def dmap_dict_range)

subsection \<open>Lookup\<close>

text \<open>
  C3. The \<open>const\<close> \<open>operator[]\<close> returns \<open>v\<close> exactly when the first stored pair, front
  first, whose key equals \<open>k\<close> has the value \<open>v\<close>; and for every dictionary, key and value,
  right after the indexed write \<open>d[k] = w\<close> the lookup of \<open>k\<close> returns \<open>w\<close> and \<open>has_key(k)\<close>
  is true.
\<close>

theorem lookup_first_match_roundtrip:
  "(index_const T d k = Inr v \<longleftrightarrow> (\<exists>i. first_match (dmap d) k i \<and> snd (dmap d ! i) = v))
   \<and> index_const T (set_item T d k w) k = Inr w
   \<and> has_key (set_item T d k w) k"
proof (intro conjI)
  show "index_const T d k = Inr v \<longleftrightarrow> (\<exists>i. first_match (dmap d) k i \<and> snd (dmap d ! i) = v)"
  proof (cases "k \<in> set (keys d)")
    case True
    then obtain i where i: "first_match (dmap d) k i"
      using first_match_exists [of k "dmap d"] by (auto simp: keys_map_fst)
    have get: "index_const T d k = Inr (snd (dmap d ! i))"
      using i by (rule index_const_present)
    show ?thesis
    proof
      assume "index_const T d k = Inr v"
      with get have "snd (dmap d ! i) = v" by simp
      with i show "\<exists>i. first_match (dmap d) k i \<and> snd (dmap d ! i) = v" by blast
    next
      assume "\<exists>i. first_match (dmap d) k i \<and> snd (dmap d ! i) = v"
      then obtain j where j: "first_match (dmap d) k j" and v: "snd (dmap d ! j) = v" by blast
      from i j have "i = j" by (rule first_match_unique)
      with get v show "index_const T d k = Inr v" by simp
    qed
  next
    case False
    then have "index_const T d k = Inl (key_not_found_in_dict T k)"
      by (rule index_const_absent)
    moreover have "\<not> first_match (dmap d) k i" for i
      using False first_match_present [of "dmap d" k i] by (auto simp: keys_map_fst)
    ultimately show ?thesis by simp
  qed
  show "index_const T (set_item T d k w) k = Inr w"
    by (rule index_const_set_item)
  show "has_key (set_item T d k w) k"
    by (simp add: has_key_iff keys_set_item)
qed

subsection \<open>Missing keys\<close>

text \<open>
  C4. The \<open>const\<close> \<open>operator[]\<close> and \<open>pop\<close> fail, with the exception of
  \<open>key_not_found_in_dict(k)\<close>, exactly when no stored pair has a key equal to \<open>k\<close>: when
  there is none both fail with it, when there is one both return a value. In particular both
  fail with it on the empty dictionary, for every key.
\<close>

theorem not_found_exactly_when_absent:
  "(k \<notin> fst ` set (dmap d) \<longrightarrow>
      index_const T d k = Inl (key_not_found_in_dict T k)
      \<and> fst (pop T d k) = Inl (key_not_found_in_dict T k))
   \<and> (k \<in> fst ` set (dmap d) \<longrightarrow>
      (\<exists>v. index_const T d k = Inr v) \<and> (\<exists>v. fst (pop T d k) = Inr v))
   \<and> index_const T dict_empty k = Inl (key_not_found_in_dict T k)
   \<and> fst (pop T dict_empty k) = Inl (key_not_found_in_dict T k)"
proof (intro conjI impI)
  assume "k \<notin> fst ` set (dmap d)"
  then have absent: "k \<notin> set (keys d)" by (simp add: keys_map_fst)
  then show "index_const T d k = Inl (key_not_found_in_dict T k)"
    by (rule index_const_absent)
  from absent show "fst (pop T d k) = Inl (key_not_found_in_dict T k)"
    by (simp add: pop_absent)
next
  assume "k \<in> fst ` set (dmap d)"
  then have present: "k \<in> set (keys d)" by (simp add: keys_map_fst)
  then show "\<exists>v. index_const T d k = Inr v" by (rule index_const_Inr_present)
  from present show "\<exists>v. fst (pop T d k) = Inr v" by (rule pop_Inr_present)
next
  show "index_const T dict_empty k = Inl (key_not_found_in_dict T k)"
    by (simp add: index_const_def dict_empty_def)
  show "fst (pop T dict_empty k) = Inl (key_not_found_in_dict T k)"
    by (simp add: pop_def dict_empty_def)
qed

theorem not_found_exactly_when_absent_witness:
  "''x'' \<notin> fst ` set (dmap (dict_range [(''y'', 20::int)]))
   \<and> index_const string_int_env (dict_range [(''y'', 20)]) ''x''
       = Inl (key_not_found_in_dict string_int_env ''x'')
   \<and> fst (pop string_int_env (dict_range [(''y'', 20)]) ''x'')
       = Inl (key_not_found_in_dict string_int_env ''x'')
   \<and> ''y'' \<in> fst ` set (dmap (dict_range [(''y'', 20::int)]))
   \<and> (\<exists>v. index_const string_int_env (dict_range [(''y'', 20)]) ''y'' = Inr v)
   \<and> (\<exists>v. fst (pop string_int_env (dict_range [(''y'', 20)]) ''y'') = Inr v)"
  using not_found_exactly_when_absent [of "''x''" "dict_range [(''y'', 20::int)]" string_int_env]
    not_found_exactly_when_absent [of "''y''" "dict_range [(''y'', 20::int)]" string_int_env]
  by (simp add: dmap_dict_range)

text \<open>
  C9. When no stored pair has a key equal to \<open>k\<close>, \<open>pop(k)\<close> fails with the exception of
  \<open>key_not_found_in_dict(k)\<close> and the dictionary after the call is the dictionary before it:
  the same pairs in the same order.
\<close>

theorem failed_pop_leaves_dict_unchanged:
  "\<forall>p \<in> set (dmap d). fst p \<noteq> k \<Longrightarrow> pop T d k = (Inl (key_not_found_in_dict T k), d)"
proof -
  assume "\<forall>p \<in> set (dmap d). fst p \<noteq> k"
  then have "k \<notin> set (keys d)" by (auto simp: keys_map_fst)
  then show ?thesis by (rule pop_absent)
qed

theorem failed_pop_leaves_dict_unchanged_witness:
  "''z'' \<notin> fst ` set (dmap (dict_range [(''x'', 10::int), (''y'', 20)]))
   \<and> pop string_int_env (dict_range [(''x'', 10), (''y'', 20)]) ''z''
       = (Inl (key_not_found_in_dict string_int_env ''z''), dict_range [(''x'', 10), (''y'', 20)])"
proof -
  have absent: "\<forall>p \<in> set (dmap (dict_range [(''x'', 10::int), (''y'', 20)])). fst p \<noteq> ''z''"
    by (simp add: dmap_dict_range)
  from failed_pop_leaves_dict_unchanged [OF absent, of string_int_env]
  show ?thesis by (simp add: dmap_dict_range)
qed

text \<open>
  C8. The exception that \<open>operator[]\<close> and \<open>pop\<close> throw is the value returned by
  \<open>key_not_found_in_dict\<close>. The function formats the text with the key and the two type
  names and builds a \<open>std::out_of_range\<close> from it, but its return type is \<open>std::exception\<close>:
  what is thrown is a plain \<open>std::exception\<close>, the same for every key, and it carries no
  text. For \<open>dict<std::string, int>\<close>, empty, and the key \<open>a\<close>: both operations throw the
  plain exception, although the text that was formatted names the key and the types.
\<close>

theorem error_payload_lost:
  "key_not_found_in_dict T k = Std_exception
   \<and> what_text (key_not_found_in_dict T k) = None
   \<and> index_const string_int_env dict_empty ''a'' = Inl Std_exception
   \<and> fst (pop string_int_env dict_empty ''a'') = Inl Std_exception
   \<and> key_not_found_message string_int_env ''a''
       = ''key '' @ [CHR 0x22] @ ''a'' @ [CHR 0x22] @ '' not found in dict(Ss, i)''"
  by (simp add: key_not_found_in_dict_def index_const_def pop_def dict_empty_def
      key_not_found_message_def string_int_env_def)

subsection \<open>The mutable indexed access\<close>

text \<open>
  C6. For every dictionary and key \<open>k\<close>, the non-\<open>const\<close> \<open>operator[]\<close>: when \<open>k\<close> is absent,
  appends the pair \<open>(k, Val())\<close> at the end of the sequence and returns the reference to the
  value of that new pair, which reads \<open>Val()\<close>; when \<open>k\<close> is present, leaves the dictionary as
  it is and returns the reference to the value of the first pair whose key is \<open>k\<close>. The
  operation has no failing outcome (the body throws nothing): in both cases the reference is
  to a stored pair with key \<open>k\<close>, and a value assigned through it is the value a lookup of
  \<open>k\<close> returns afterwards.
\<close>

theorem index_mut_get_or_insert_default:
  "(\<not> has_key d k \<longrightarrow>
      index_mut T d k = (d\<lparr>dmap := dmap d @ [(k, Val T)]\<rparr>, length (dmap d))
      \<and> ref_read (fst (index_mut T d k)) (snd (index_mut T d k)) = Val T)
   \<and> (has_key d k \<longrightarrow>
      fst (index_mut T d k) = d \<and> first_match (dmap d) k (snd (index_mut T d k)))
   \<and> snd (index_mut T d k) < dict_size (fst (index_mut T d k))
   \<and> fst (dmap (fst (index_mut T d k)) ! snd (index_mut T d k)) = k
   \<and> index_const T (ref_assign (fst (index_mut T d k)) (snd (index_mut T d k)) w) k = Inr w"
proof -
  have through: "index_const T (ref_assign (fst (index_mut T d k)) (snd (index_mut T d k)) w) k
                   = Inr w"
    using index_const_set_item [of T d k w] by (simp add: set_item_def case_prod_beta)
  show ?thesis
  proof (cases "has_key d k")
    case True
    then have "\<exists>i. first_match (dmap d) k i" by (rule has_key_first_match)
    then obtain i where i: "first_match (dmap d) k i" ..
    then have "index_mut T d k = (d, i)" by (rule index_mut_present)
    with True i through show ?thesis by (simp add: first_match_def dict_size_def)
  next
    case False
    then have "k \<notin> set (keys d)" by (simp add: has_key_iff)
    then have "index_mut T d k = (d\<lparr>dmap := dmap d @ [(k, Val T)]\<rparr>, length (dmap d))"
      by (rule index_mut_absent)
    with False through show ?thesis by (simp add: ref_read_def dict_size_def)
  qed
qed

theorem index_mut_get_or_insert_default_witness:
  "\<not> has_key (dict_empty :: (string, int) dict) ''z''
   \<and> index_mut string_int_env dict_empty ''z'' = (\<lparr>dmap = [(''z'', 0)]\<rparr>, 0)
   \<and> ref_read (fst (index_mut string_int_env dict_empty ''z''))
        (snd (index_mut string_int_env dict_empty ''z'')) = 0
   \<and> index_const string_int_env
        (ref_assign (fst (index_mut string_int_env dict_empty ''z''))
           (snd (index_mut string_int_env dict_empty ''z'')) 5) ''z'' = Inr 5
   \<and> has_key (dict_range [(''x'', 10::int), (''y'', 20)]) ''y''
   \<and> fst (index_mut string_int_env (dict_range [(''x'', 10), (''y'', 20)]) ''y'')
       = dict_range [(''x'', 10), (''y'', 20)]
   \<and> first_match (dmap (dict_range [(''x'', 10::int), (''y'', 20)])) ''y''
        (snd (index_mut string_int_env (dict_range [(''x'', 10), (''y'', 20)]) ''y''))"
proof -
  have e: "\<not> has_key (dict_empty :: (string, int) dict) ''z''"
    by (simp add: has_key_def dict_empty_def)
  have p: "has_key (dict_range [(''x'', 10::int), (''y'', 20)]) ''y''"
    by (simp add: has_key_def dmap_dict_range)
  from e index_mut_get_or_insert_default [of dict_empty "''z''" string_int_env 5]
  have a: "index_mut string_int_env dict_empty ''z''
             = (dict_empty\<lparr>dmap := dmap dict_empty @ [(''z'', Val string_int_env)]\<rparr>,
                length (dmap (dict_empty :: (string, int) dict)))"
    and r: "ref_read (fst (index_mut string_int_env dict_empty ''z''))
              (snd (index_mut string_int_env dict_empty ''z'')) = Val string_int_env"
    and w: "index_const string_int_env
              (ref_assign (fst (index_mut string_int_env dict_empty ''z''))
                 (snd (index_mut string_int_env dict_empty ''z'')) 5) ''z'' = Inr 5"
    by blast+
  from a have a': "index_mut string_int_env dict_empty ''z'' = (\<lparr>dmap = [(''z'', 0)]\<rparr>, 0)"
    by (simp add: dict_empty_def string_int_env_def)
  from r have r': "ref_read (fst (index_mut string_int_env dict_empty ''z''))
              (snd (index_mut string_int_env dict_empty ''z'')) = 0"
    by (simp add: string_int_env_def)
  from p index_mut_get_or_insert_default
        [of "dict_range [(''x'', 10::int), (''y'', 20)]" "''y''" string_int_env]
  have b: "fst (index_mut string_int_env (dict_range [(''x'', 10), (''y'', 20)]) ''y'')
       = dict_range [(''x'', 10), (''y'', 20)]
   \<and> first_match (dmap (dict_range [(''x'', 10::int), (''y'', 20)])) ''y''
        (snd (index_mut string_int_env (dict_range [(''x'', 10), (''y'', 20)]) ''y''))"
    by simp
  from e p a' r' w b show ?thesis by simp
qed

subsection \<open>Uniqueness and order of keys\<close>

text \<open>
  C1, as the code has it. The range constructor stores duplicate keys as given, so the
  pair-count parts of the claim do not hold of every dictionary. For every dictionary whose
  stored keys are pairwise distinct (the empty dictionary, and every dictionary reached from
  it by indexed writes and \<open>pop\<close>), after any sequence of indexed writes and \<open>pop\<close> calls at
  most one stored pair has a key equal to \<open>k\<close>, and after the indexed writes \<open>d[k] = v1\<close> and
  \<open>d[k] = v2\<close> exactly one stored pair has the key \<open>k\<close>. For every dictionary, after those
  two writes the lookup of \<open>k\<close> returns \<open>v2\<close>, and the second write updates in place: it changes
  neither \<open>size()\<close> nor the number of stored pairs with the key \<open>k\<close>.
\<close>

theorem key_uniqueness_from_distinct:
  "(distinct (keys d) \<longrightarrow>
      key_count (mutate_all T d ms) k \<le> 1
      \<and> key_count (set_item T (set_item T d k v1) k v2) k = 1)
   \<and> index_const T (set_item T (set_item T d k v1) k v2) k = Inr v2
   \<and> dict_size (set_item T (set_item T d k v1) k v2) = dict_size (set_item T d k v1)
   \<and> key_count (set_item T (set_item T d k v1) k v2) k = key_count (set_item T d k v1) k"
proof -
  have unique: "key_count (mutate_all T d ms) k \<le> 1
      \<and> key_count (set_item T (set_item T d k v1) k v2) k = 1"
    if d: "distinct (keys d)"
  proof
    from d have "distinct (keys (mutate_all T d ms))" by (rule distinct_keys_mutate_all)
    then show "key_count (mutate_all T d ms) k \<le> 1" by (rule key_count_distinct)
    from d have "distinct (keys (set_item T (set_item T d k v1) k v2))"
      by (intro distinct_keys_set_item)
    then show "key_count (set_item T (set_item T d k v1) k v2) k = 1"
      using key_in_keys_set_item by (rule key_count_distinct_present)
  qed
  have get: "index_const T (set_item T (set_item T d k v1) k v2) k = Inr v2"
    by (rule index_const_set_item)
  have sz: "dict_size (set_item T (set_item T d k v1) k v2) = dict_size (set_item T d k v1)"
    using key_in_keys_set_item by (rule dict_size_set_item_present)
  have cnt: "key_count (set_item T (set_item T d k v1) k v2) k
               = key_count (set_item T d k v1) k"
    using key_in_keys_set_item by (rule key_count_set_item_present)
  from unique get sz cnt show ?thesis by blast
qed

text \<open>
  The empty \<open>dict<std::string, int>\<close> with \<open>a = 1\<close>, \<open>b = 2\<close>, \<open>a = 3\<close> written in that order.
\<close>

theorem key_uniqueness_from_distinct_witness:
  "distinct (keys (dict_empty :: (string, int) dict))
   \<and> key_count \<lparr>dmap = [(''a'', 3::int), (''b'', 2)]\<rparr> ''a'' \<le> 1
   \<and> index_const string_int_env
        (set_item string_int_env (set_item string_int_env dict_empty ''a'' 1) ''a'' 3) ''a''
       = Inr 3
   \<and> key_count (set_item string_int_env (set_item string_int_env dict_empty ''a'' 1) ''a'' 3) ''a''
       = 1"
proof -
  have d: "distinct (keys (dict_empty :: (string, int) dict))"
    by (simp add: keys_def dict_empty_def)
  from key_uniqueness_from_distinct [of dict_empty string_int_env
      "[Write ''a'' 1, Write ''b'' 2, Write ''a'' 3]" "''a''" 1 3]
  show ?thesis using d by (simp only: scenario_a_b_a simp_thms)
qed

text \<open>
  C1 as stated fails on the dictionary constructed from the range \<open>(a, 1), (a, 2)\<close>: after the
  indexed writes \<open>a = 5\<close> and \<open>a = 6\<close> two stored pairs have the key \<open>a\<close>.
\<close>

theorem key_uniqueness_counterexample:
  "\<not> key_count
       (mutate_all string_int_env (dict_range [(''a'', 1), (''a'', 2)])
          [Write ''a'' 5, Write ''a'' 6]) ''a'' \<le> 1"
  unfolding dup_dict_two_writes by (simp add: key_count_def)

text \<open>
  C2. Indexed writes into the empty dictionary leave the keys in the order of their first
  write, whatever writes to keys already present lie in between (\<open>rev \<circ> remdups \<circ> rev\<close> keeps
  the first occurrence of each key); so for pairwise distinct keys written in the order
  \<open>k1, ..., kn\<close>, \<open>keys()\<close> is exactly \<open>[k1, ..., kn]\<close>. An indexed write to a key that is present
  leaves \<open>keys()\<close> of any dictionary unchanged.
\<close>

theorem insertion_order_preserved:
  "keys (mutate_all T dict_empty (map (\<lambda>(key, v). Write key v) ws))
     = rev (remdups (rev (map fst ws)))
   \<and> (distinct (map fst ws) \<longrightarrow>
        keys (mutate_all T dict_empty (map (\<lambda>(key, v). Write key v) ws)) = map fst ws)
   \<and> (has_key d k \<longrightarrow> keys (set_item T d k v) = keys d)"
proof -
  have "distinct (keys (dict_empty :: ('a, 'b) dict))"
    by (simp add: keys_def dict_empty_def)
  then have "keys (mutate_all T dict_empty (map (\<lambda>(key, v). Write key v) ws))
     = rev (remdups (rev (keys (dict_empty :: ('a, 'b) dict) @ map fst ws)))"
    by (rule keys_write_sequence)
  then have general: "keys (mutate_all T dict_empty (map (\<lambda>(key, v). Write key v) ws))
     = rev (remdups (rev (map fst ws)))"
    by (simp add: keys_def dict_empty_def)
  then have "keys (mutate_all T dict_empty (map (\<lambda>(key, v). Write key v) ws)) = map fst ws"
    if "distinct (map fst ws)"
    using that by (simp add: distinct_remdups_id)
  moreover have "keys (set_item T d k v) = keys d" if "has_key d k"
    using that by (simp add: keys_set_item has_key_iff)
  ultimately show ?thesis using general by blast
qed

theorem insertion_order_preserved_witness:
  "distinct (map fst [(''a'', 1::int), (''b'', 2)])
   \<and> keys (mutate_all string_int_env dict_empty [Write ''a'' 1, Write ''b'' 2]) = [''a'', ''b'']
   \<and> keys (mutate_all string_int_env dict_empty [Write ''a'' 1, Write ''b'' 2, Write ''a'' 3])
       = [''a'', ''b'']
   \<and> has_key \<lparr>dmap = [(''a'', 1::int), (''b'', 2)]\<rparr> ''a''
   \<and> keys (set_item string_int_env \<lparr>dmap = [(''a'', 1), (''b'', 2)]\<rparr> ''a'' 3) = [''a'', ''b'']"
proof -
  have h: "has_key \<lparr>dmap = [(''a'', 1::int), (''b'', 2)]\<rparr> ''a''"
    by (simp add: has_key_def)
  have k: "keys \<lparr>dmap = [(''a'', 1::int), (''b'', 2)]\<rparr> = [''a'', ''b'']"
    by (simp add: keys_def)
  from insertion_order_preserved
         [of string_int_env "[(''a'', 1), (''b'', 2)]" "\<lparr>dmap = [(''a'', 1), (''b'', 2)]\<rparr>" "''a''" 3]
       insertion_order_preserved
         [of string_int_env "[(''a'', 1), (''b'', 2), (''a'', 3)]" dict_empty "''a''" 3]
       h k
  show ?thesis by simp
qed

subsection \<open>Removal\<close>

text \<open>
  C5, as the code has it. For every dictionary and key \<open>k\<close> whose lookup returns \<open>v\<close>,
  \<open>pop(k)\<close> returns \<open>v\<close> and erases exactly the first pair whose key is \<open>k\<close>: the pairs before
  and after it stay in their order and \<open>size()\<close> drops by one. When \<open>k\<close> is the key of exactly
  one stored pair (as in every dictionary with pairwise distinct keys), afterwards
  \<open>has_key(k)\<close> is false and the lookup of \<open>k\<close> fails with the exception of
  \<open>key_not_found_in_dict(k)\<close>.
\<close>

theorem pop_removes_first_match:
  "index_const T d k = Inr v \<Longrightarrow>
     (\<exists>i. first_match (dmap d) k i
          \<and> pop T d k = (Inr v, d\<lparr>dmap := take i (dmap d) @ drop (Suc i) (dmap d)\<rparr>))
     \<and> Suc (dict_size (snd (pop T d k))) = dict_size d
     \<and> (key_count d k = 1 \<longrightarrow>
          \<not> has_key (snd (pop T d k)) k
          \<and> index_const T (snd (pop T d k)) k = Inl (key_not_found_in_dict T k))"
proof -
  assume get: "index_const T d k = Inr v"
  have "k \<in> set (keys d)"
  proof (rule ccontr)
    assume "k \<notin> set (keys d)"
    then have "index_const T d k = Inl (key_not_found_in_dict T k)" by (rule index_const_absent)
    with get show False by simp
  qed
  then have "\<exists>i. first_match (dmap d) k i"
    using first_match_exists [of k "dmap d"] by (simp add: keys_map_fst)
  then obtain i where i: "first_match (dmap d) k i" ..
  from i get have v: "snd (dmap d ! i) = v" by (simp add: index_const_present)
  from i v have p: "pop T d k = (Inr v, d\<lparr>dmap := take i (dmap d) @ drop (Suc i) (dmap d)\<rparr>)"
    by (simp add: pop_present)
  from i have "i < length (dmap d)" by (simp add: first_match_def)
  with p have sz: "Suc (dict_size (snd (pop T d k))) = dict_size d"
    by (simp add: dict_size_def)
  have after: "\<not> has_key (snd (pop T d k)) k
      \<and> index_const T (snd (pop T d k)) k = Inl (key_not_found_in_dict T k)"
    if one: "key_count d k = 1"
  proof -
    from i one have "k \<notin> set (keys (snd (pop T d k)))" by (rule key_absent_after_pop)
    then show ?thesis by (simp add: has_key_iff index_const_absent)
  qed
  from i p have "\<exists>i. first_match (dmap d) k i
          \<and> pop T d k = (Inr v, d\<lparr>dmap := take i (dmap d) @ drop (Suc i) (dmap d)\<rparr>)"
    by blast
  with sz after show ?thesis by blast
qed

theorem pop_removes_first_match_witness:
  "index_const string_int_env (dict_range [(''x'', 10), (''y'', 20)]) ''x'' = Inr 10
   \<and> key_count (dict_range [(''x'', 10::int), (''y'', 20)]) ''x'' = 1
   \<and> fst (pop string_int_env (dict_range [(''x'', 10), (''y'', 20)]) ''x'') = Inr 10
   \<and> Suc (dict_size (snd (pop string_int_env (dict_range [(''x'', 10), (''y'', 20)]) ''x''))) = 2
   \<and> \<not> has_key (snd (pop string_int_env (dict_range [(''x'', 10), (''y'', 20)]) ''x'')) ''x''
   \<and> index_const string_int_env
        (snd (pop string_int_env (dict_range [(''x'', 10), (''y'', 20)]) ''x'')) ''x''
       = Inl (key_not_found_in_dict string_int_env ''x'')"
proof -
  have g: "index_const string_int_env (dict_range [(''x'', 10), (''y'', 20)]) ''x'' = Inr 10"
    by (simp add: index_const_def dmap_dict_range)
  have c: "key_count (dict_range [(''x'', 10::int), (''y'', 20)]) ''x'' = 1"
    by (simp add: key_count_def dmap_dict_range)
  have s: "dict_size (dict_range [(''x'', 10::int), (''y'', 20)]) = 2"
    by (simp add: dict_size_def dmap_dict_range)
  from pop_removes_first_match [OF g] c s g show ?thesis by auto
qed

text \<open>
  C5 as stated fails on the dictionary constructed from the range \<open>(a, 1), (a, 2)\<close>: the key
  \<open>a\<close> is present with value 1, and after \<open>pop(a)\<close> the key is still present.
\<close>

theorem pop_removes_first_match_counterexample:
  "index_const string_int_env (dict_range [(''a'', 1), (''a'', 2)]) ''a'' = Inr 1
   \<and> \<not> (\<not> has_key (snd (pop string_int_env (dict_range [(''a'', 1), (''a'', 2)]) ''a'')) ''a''
        \<and> index_const string_int_env
             (snd (pop string_int_env (dict_range [(''a'', 1), (''a'', 2)]) ''a'')) ''a''
            = Inl (key_not_found_in_dict string_int_env ''a''))"
  by (simp add: index_const_def pop_def has_key_def dmap_dict_range)

end
